theory Spec2Isabelle
  imports Complex_Main "HOL-Library.Char_ord" "HOL-Library.List_Lexorder"
begin

section \<open>Python values and strings\<close>

text \<open>
  The page attribute of a retrieved document is whatever the PDF loader put into the
  metadata dictionary: an integer page index, a string, or \<open>None\<close>. Strings are lists
  of 8-bit characters, compared lexicographically by character code, as Python compares
  \<open>str\<close> values by code point.
\<close>

datatype pyval = PyNone | PyInt int | PyStr string

definition digit_char :: "nat \<Rightarrow> char" where
  "digit_char d = char_of (48 + d)"

function str_nat :: "nat \<Rightarrow> string" where
  "str_nat n = (if n < 10 then [digit_char n] else str_nat (n div 10) @ [digit_char (n mod 10)])"
  by pat_completeness auto
termination
  by (relation "measure (\<lambda>n. n)") auto

declare str_nat.simps [simp del]

definition str_int :: "int \<Rightarrow> string" where
  "str_int i = (if i < 0 then CHR ''-'' # str_nat (nat (- i)) else str_nat (nat i))"

text \<open>Python's \<open>str(v)\<close>.\<close>

fun py_str :: "pyval \<Rightarrow> string" where
  "py_str PyNone = ''None''"
| "py_str (PyInt i) = str_int i"
| "py_str (PyStr s) = s"

text \<open>Python's \<open>sep.join(xs)\<close>.\<close>

fun join :: "string \<Rightarrow> string list \<Rightarrow> string" where
  "join sep [] = []"
| "join sep [x] = x"
| "join sep (x # y # ys) = x @ sep @ join sep (y # ys)"

text \<open>
  Python's \<open>str.isspace\<close> on the characters below 256, and \<open>str.strip()\<close>, which
  removes the longest prefix and suffix of such characters.
\<close>

definition is_space :: "char \<Rightarrow> bool" where
  "is_space c = (let n = (of_char c :: nat) in
     (9 \<le> n \<and> n \<le> 13) \<or> (28 \<le> n \<and> n \<le> 32) \<or> n = 133 \<or> n = 160)"

definition strip :: "string \<Rightarrow> string" where
  "strip s = rev (dropWhile is_space (rev (dropWhile is_space s)))"

text \<open>
  \<open>list(dict.fromkeys(xs))\<close>: the keys are inserted from left to right, and a key that is
  already in the dictionary keeps its position.
\<close>

definition fromkeys :: "'a list \<Rightarrow> 'a list" where
  "fromkeys xs = foldl (\<lambda>acc x. if x \<in> set acc then acc else acc @ [x]) [] xs"

section \<open>chatbot.py: get_response\<close>

text \<open>
  A retrieved document carries its text and a metadata dictionary. The chain's result is a
  dictionary in which the keys \<open>answer\<close> and \<open>context\<close> may be missing. Invoking the chain
  either returns such a dictionary or raises an exception, recorded by its message
  \<open>str(e)\<close>; the chain is a parameter of \<open>get_response\<close>.
\<close>

record doc =
  page_content :: string
  metadata :: "string \<rightharpoonup> pyval"

record chain_result =
  res_answer :: "string option"
  res_context :: "doc list option"

datatype exn = Exception string | ValueError string

fun exn_str :: "exn \<Rightarrow> string" where
  "exn_str (Exception m) = m"
| "exn_str (ValueError m) = m"

type_synonym qa_chain = "string \<Rightarrow> exn + chain_result"

record response =
  answer :: string
  sources :: "pyval list"
  context_docs :: "doc list"

text \<open>
  \<open>try: body except Exception as e: handler(e)\<close>: the handler runs exactly when the
  body raises, and what the handler returns or raises is the outcome.
\<close>

definition try_except :: "exn + 'a \<Rightarrow> (exn \<Rightarrow> exn + 'a) \<Rightarrow> exn + 'a" where
  "try_except body handler = (case body of Inl e \<Rightarrow> handler e | Inr v \<Rightarrow> Inr v)"

text \<open>\<open>doc.metadata.get("page", "unknown")\<close> and \<open>doc.metadata.get("page") is not None\<close>.\<close>

definition page_or_unknown :: "doc \<Rightarrow> pyval" where
  "page_or_unknown d = (case metadata d ''page'' of None \<Rightarrow> PyStr ''unknown'' | Some v \<Rightarrow> v)"

definition has_page :: "doc \<Rightarrow> bool" where
  "has_page d = (case metadata d ''page'' of None \<Rightarrow> False | Some PyNone \<Rightarrow> False | Some _ \<Rightarrow> True)"

definition extract_sources :: "chain_result \<Rightarrow> pyval list" where
  "extract_sources result =
     (case res_context result of
        None \<Rightarrow> []
      | Some docs \<Rightarrow>
          if docs \<noteq> [] then fromkeys (map page_or_unknown (filter has_page docs)) else [])"

definition get_response :: "qa_chain \<Rightarrow> string \<Rightarrow> exn + response" where
  "get_response qa_chain question =
     try_except
       (case qa_chain (strip question) of
          Inl e \<Rightarrow> Inl e
        | Inr result \<Rightarrow>
            Inr \<lparr>answer = (case res_answer result of
                                None \<Rightarrow> ''I couldn't generate a response.''
                              | Some a \<Rightarrow> a),
                 sources = extract_sources result,
                 context_docs = (case res_context result of None \<Rightarrow> [] | Some docs \<Rightarrow> docs)\<rparr>)
       (\<lambda>e. Inr \<lparr>answer = ''I encountered an error while processing your question: ''
                            @ exn_str e @ ''. Please try rephrasing your question.'',
                 sources = [],
                 context_docs = []\<rparr>)"

text \<open>
  Two chains for concrete runs: one that returns a fixed result for every input, and one
  whose retrieval or model call fails with a fixed exception.
\<close>

fun returning :: "chain_result \<Rightarrow> qa_chain" where
  "returning r q = Inr r"

fun raising :: "exn \<Rightarrow> qa_chain" where
  "raising e q = Inl e"

section \<open>utils.py: format_sources\<close>

definition unique_sources :: "pyval list \<Rightarrow> string list" where
  "unique_sources srcs =
     sorted_list_of_set (set (map py_str (filter (\<lambda>s. s \<noteq> PyStr ''unknown'') srcs)))"

definition format_sources :: "pyval list \<Rightarrow> string" where
  "format_sources srcs =
     (if srcs = [] then ''**Sources:** No specific pages referenced''
      else let us = unique_sources srcs in
        if us = [] then ''**Sources:** Page numbers not available''
        else if length us = 1 then ''**Source:** Page '' @ us ! 0
        else if length us \<le> 5 then ''**Sources:** Pages '' @ join '', '' us
        else ''**Sources:** Pages '' @ join '', '' (take 5 us) @ '' and ''
               @ str_nat (length us - 5) @ '' more'')"

text \<open>
  app.py, one question: the text of the assistant's message is the answer, followed by the
  formatted sources when the list of sources is not empty; an exception out of
  \<open>get_response\<close> would be turned into an error message (the cross mark that starts it
  is written as the three bytes of its UTF-8 form).
\<close>

definition response_text :: "response \<Rightarrow> string" where
  "response_text result =
     (if sources result \<noteq> []
      then answer result @ [CHR 0x0A, CHR 0x0A] @ format_sources (sources result)
      else answer result)"

definition assistant_message :: "qa_chain \<Rightarrow> string \<Rightarrow> string" where
  "assistant_message qa_chain prompt =
     (case get_response qa_chain prompt of
        Inr result \<Rightarrow> response_text result
      | Inl e \<Rightarrow> [CHR 0xE2, CHR 0x9D, CHR 0x8C] @ '' Sorry, I encountered an error: '' @ exn_str e)"

text \<open>The position of the first occurrence of \<open>x\<close> in \<open>xs\<close>.\<close>

definition first_index :: "'a list \<Rightarrow> 'a \<Rightarrow> nat" where
  "first_index xs x = length (takeWhile (\<lambda>y. y \<noteq> x) xs)"

text \<open>
  The page attribute of a document as the citation extractor reads it: present and not
  \<open>None\<close>. \<open>collected_pages\<close> lists the attributes of the documents that have one, in
  the order of the documents.
\<close>

definition page_attribute :: "doc \<Rightarrow> pyval option" where
  "page_attribute d = (case metadata d ''page'' of None \<Rightarrow> None | Some PyNone \<Rightarrow> None | Some v \<Rightarrow> Some v)"

definition collected_pages :: "doc list \<Rightarrow> pyval list" where
  "collected_pages docs = List.map_filter page_attribute docs"


section \<open>Startup: utils.py, vectorstore.py, chatbot.py, app.py\<close>

text \<open>
  The startup code runs against the process state (the environment variables, whether the
  index directory exists, the caches of the two cached functions, and the trace of the
  calls made to the libraries) and against the outside world, which decides the outcome of
  every library call: a value, or an exception. The messages written to the user
  interface (\<open>st.info\<close>, \<open>st.success\<close>, \<open>st.warning\<close>, \<open>st.error\<close>) and the
  computation of the index size, whose failure is ignored, change nothing that is modelled
  here and are left out.
\<close>

type_synonym env = "string \<rightharpoonup> string"

type_synonym vectorstore = "doc list"

record splitter_config =
  chunk_size :: nat
  chunk_overlap :: nat
  separators :: "string list"

record retriever_config =
  search_type :: string
  k :: nat
  fetch_k :: nat
  lambda_mult :: rat

record llm_config =
  model :: string
  temperature :: int
  openai_api_key :: string
  request_timeout :: nat

record qa_chain_obj =
  retriever :: retriever_config
  llm :: llm_config
  chain_store :: vectorstore

datatype call =
    LoadDotenv | Makedirs | LoadLocal | PdfLoad string | SplitDocuments | FromDocuments | SaveLocal

record world =
  load_dotenv :: "env \<Rightarrow> env"
  secrets :: "string \<Rightarrow> exn + string"
  makedirs :: "exn + unit"
  load_local :: "exn + vectorstore"
  pdf_load :: "string \<Rightarrow> exn + doc list"
  split_documents :: "splitter_config \<Rightarrow> doc list \<Rightarrow> doc list"
  from_documents :: "doc list \<Rightarrow> exn + vectorstore"
  save_local :: "vectorstore \<Rightarrow> exn + unit"

record state =
  environ :: env
  index_exists :: bool
  vectorstore_cache :: "string \<rightharpoonup> vectorstore"
  chatbot_cache :: "qa_chain_obj option"
  trace :: "call list"

type_synonym 'a prog = "state \<Rightarrow> (exn + 'a) \<times> state"

definition called :: "call \<Rightarrow> state \<Rightarrow> state" where
  "called c s = s\<lparr>trace := trace s @ [c]\<rparr>"

subsection \<open>utils.py: validate_environment\<close>

definition required_vars :: "string list" where
  "required_vars = [''OPENAI_API_KEY'']"

text \<open>\<open>not os.getenv(var)\<close>: the variable is not set, or set to the empty string.\<close>

definition not_getenv :: "env \<Rightarrow> string \<Rightarrow> bool" where
  "not_getenv e var = (case e var of None \<Rightarrow> True | Some v \<Rightarrow> v = [])"

definition validate_environment :: "world \<Rightarrow> unit prog" where
  "validate_environment w s =
     (let s1 = called LoadDotenv (s\<lparr>environ := load_dotenv w (environ s)\<rparr>);
          missing_vars = filter (not_getenv (environ s1)) required_vars
      in if missing_vars \<noteq> []
         then (Inl (ValueError (''Missing required environment variables: ''
                  @ join '', '' missing_vars
                  @ ''. Please set them in your .env file or Streamlit secrets.'')), s1)
         else (Inr (), s1))"

subsection \<open>vectorstore.py\<close>

definition text_splitter :: splitter_config where
  "text_splitter =
     \<lparr>chunk_size = 1000, chunk_overlap = 200,
      separators = [[CHR 0x0A, CHR 0x0A], [CHR 0x0A], ''. '', ''! '', ''? '', '', '', '' '', []]\<rparr>"

text \<open>
  \<open>build_vectorstore\<close>: every step that raises ends the build with that exception (the
  handler shows it and raises it again).
\<close>

definition build_vectorstore :: "world \<Rightarrow> string \<Rightarrow> vectorstore prog" where
  "build_vectorstore w pdf_path s =
     (let s1 = called Makedirs s in
      case makedirs w of Inl e \<Rightarrow> (Inl e, s1) | Inr _ \<Rightarrow>
      let s2 = called LoadDotenv (s1\<lparr>environ := load_dotenv w (environ s1)\<rparr>);
          s3 = called (PdfLoad pdf_path) s2 in
      case pdf_load w pdf_path of Inl e \<Rightarrow> (Inl e, s3) | Inr docs \<Rightarrow>
      let s4 = called SplitDocuments s3;
          chunks = split_documents w text_splitter docs in
      case secrets w ''OPENAI_API_KEY'' of Inl e \<Rightarrow> (Inl e, s4) | Inr key \<Rightarrow>
      let s5 = called FromDocuments s4 in
      case from_documents w chunks of Inl e \<Rightarrow> (Inl e, s5) | Inr vs \<Rightarrow>
      let s6 = called SaveLocal s5 in
      case save_local w vs of Inl e \<Rightarrow> (Inl e, s6) | Inr _ \<Rightarrow>
      (Inr vs, s6\<lparr>index_exists := True\<rparr>))"

text \<open>
  The body of \<open>load_or_create_vectorstore\<close>: when the index directory exists, the
  embeddings client is made and the index is loaded inside a \<open>try\<close>; an exception there
  is shown as a warning and the function goes on to build the index.
\<close>

definition load_or_create_vectorstore_body :: "world \<Rightarrow> string \<Rightarrow> vectorstore prog" where
  "load_or_create_vectorstore_body w pdf_path s =
     (if index_exists s
      then (case secrets w ''OPENAI_API_KEY'' of
              Inl e \<Rightarrow> build_vectorstore w pdf_path s
            | Inr key \<Rightarrow>
                (case load_local w of
                   Inr vs \<Rightarrow> (Inr vs, called LoadLocal s)
                 | Inl e \<Rightarrow> build_vectorstore w pdf_path (called LoadLocal s)))
      else build_vectorstore w pdf_path s)"

text \<open>
  Modelled from the spec: the decorator \<open>st.cache_resource\<close> is Streamlit's and not in
  the sources. The specification asks that the shared resource is initialised once per
  process and that a repeated request returns the instance already built rather than
  building again; the docstrings say the cache avoids rebuilding. So a cached function
  looks its arguments up in its cache and returns the stored value without running its
  body; otherwise it runs the body and stores the value the body returns. A body that
  raises stores nothing.
\<close>

definition cache_resource ::
  "(state \<Rightarrow> 'a option) \<Rightarrow> ('a \<Rightarrow> state \<Rightarrow> state) \<Rightarrow> 'a prog \<Rightarrow> 'a prog" where
  "cache_resource lookup store body s =
     (case lookup s of
        Some v \<Rightarrow> (Inr v, s)
      | None \<Rightarrow>
          (case body s of
             (Inr v, s') \<Rightarrow> (Inr v, store v s')
           | (Inl e, s') \<Rightarrow> (Inl e, s')))"

definition load_or_create_vectorstore :: "world \<Rightarrow> string \<Rightarrow> vectorstore prog" where
  "load_or_create_vectorstore w pdf_path =
     cache_resource
       (\<lambda>s. vectorstore_cache s pdf_path)
       (\<lambda>vs s. s\<lparr>vectorstore_cache := (vectorstore_cache s)(pdf_path \<mapsto> vs)\<rparr>)
       (load_or_create_vectorstore_body w pdf_path)"

subsection \<open>chatbot.py: create_qa_chain and initialize_chatbot\<close>

text \<open>
  The chain is made of the retriever's configuration, the language model's configuration
  and the vector store; the prompt template is a constant text and is left out. Reading
  the key from the secrets may raise.
\<close>

definition create_qa_chain :: "world \<Rightarrow> vectorstore \<Rightarrow> exn + qa_chain_obj" where
  "create_qa_chain w vs =
     (case secrets w ''OPENAI_API_KEY'' of
        Inl e \<Rightarrow> Inl e
      | Inr key \<Rightarrow>
          Inr \<lparr>retriever = \<lparr>search_type = ''mmr'', k = 6, fetch_k = 12, lambda_mult = 7 / 10\<rparr>,
               llm = \<lparr>model = ''gpt-4o-mini'', temperature = 0, openai_api_key = key,
                      request_timeout = 60\<rparr>,
               chain_store = vs\<rparr>)"

definition pdf_path0 :: string where
  "pdf_path0 = ''docs/muhammad_martin_Lings.pdf''"

definition initialize_chatbot_body :: "world \<Rightarrow> qa_chain_obj prog" where
  "initialize_chatbot_body w s =
     (case validate_environment w s of
        (Inl e, s1) \<Rightarrow> (Inl e, s1)
      | (Inr _, s1) \<Rightarrow>
          (case load_or_create_vectorstore w pdf_path0 s1 of
             (Inl e, s2) \<Rightarrow> (Inl e, s2)
           | (Inr vectorstore, s2) \<Rightarrow>
               (case create_qa_chain w vectorstore of
                  Inl e \<Rightarrow> (Inl e, s2)
                | Inr qa_chain \<Rightarrow> (Inr qa_chain, s2))))"

definition initialize_chatbot :: "world \<Rightarrow> qa_chain_obj prog" where
  "initialize_chatbot w =
     cache_resource chatbot_cache (\<lambda>c s. s\<lparr>chatbot_cache := Some c\<rparr>) (initialize_chatbot_body w)"

text \<open>A sequence of initialisation requests, each against the world of its moment.\<close>

fun initialize_requests :: "world list \<Rightarrow> state \<Rightarrow> (exn + qa_chain_obj) list \<times> state" where
  "initialize_requests [] s = ([], s)"
| "initialize_requests (w # ws) s =
     (case initialize_chatbot w s of
        (r, s') \<Rightarrow> (case initialize_requests ws s' of (rs, s'') \<Rightarrow> (r # rs, s'')))"

subsection \<open>app.py: the start of a session\<close>

record session =
  chatbot_initialized :: bool
  session_qa_chain :: "qa_chain_obj option"

datatype run = Proceeds | Stopped

text \<open>
  The script initialises the chatbot when the session has not done so; an exception is
  shown and \<open>st.stop()\<close> ends the run.
\<close>

definition start_session :: "world \<Rightarrow> session \<Rightarrow> state \<Rightarrow> run \<times> session \<times> state" where
  "start_session w sess s =
     (if \<not> chatbot_initialized sess
      then (case initialize_chatbot w s of
              (Inr c, s') \<Rightarrow> (Proceeds, sess\<lparr>session_qa_chain := Some c, chatbot_initialized := True\<rparr>, s')
            | (Inl e, s') \<Rightarrow> (Stopped, sess, s'))
      else (Proceeds, sess, s))"

text \<open>
  What a build returns or raises is decided by the world alone: the first library call
  that raises ends the build, and a build that gets through returns the store made from
  all the chunks of the document.
\<close>

definition build_outcome :: "world \<Rightarrow> string \<Rightarrow> exn + vectorstore" where
  "build_outcome w pdf_path =
     (case makedirs w of Inl e \<Rightarrow> Inl e | Inr _ \<Rightarrow>
      case pdf_load w pdf_path of Inl e \<Rightarrow> Inl e | Inr docs \<Rightarrow>
      case secrets w ''OPENAI_API_KEY'' of Inl e \<Rightarrow> Inl e | Inr key \<Rightarrow>
      case from_documents w (split_documents w text_splitter docs) of Inl e \<Rightarrow> Inl e | Inr vs \<Rightarrow>
      case save_local w vs of Inl e \<Rightarrow> Inl e | Inr _ \<Rightarrow> Inr vs)"


subsection \<open>Worlds and states for concrete runs\<close>

text \<open>
  In \<open>world_ok\<close> the stored index cannot be loaded and everything else works; in
  \<open>world_down\<close> every library call fails. \<open>state0\<close> is a fresh process with the key in
  its environment and an index directory on disk; \<open>state_nokey\<close> is the same without the
  key.
\<close>

definition page_doc :: "int \<Rightarrow> string \<Rightarrow> doc" where
  "page_doc n txt = \<lparr>page_content = txt, metadata = [''page'' \<mapsto> PyInt n]\<rparr>"

definition world_ok :: world where
  "world_ok =
     \<lparr>load_dotenv = (\<lambda>e. e),
      secrets = (\<lambda>key. if key = ''OPENAI_API_KEY'' then Inr ''sk-test'' else Inl (Exception ''no such secret'')),
      makedirs = Inr (),
      load_local = Inl (Exception ''could not open the index file''),
      pdf_load = (\<lambda>path. Inr [page_doc 0 ''In the name of God'', page_doc 1 ''The House of God'']),
      split_documents = (\<lambda>cfg docs. docs),
      from_documents = (\<lambda>chunks. Inr chunks),
      save_local = (\<lambda>vs. Inr ())\<rparr>"

definition world_down :: world where
  "world_down =
     \<lparr>load_dotenv = (\<lambda>e. Map.empty),
      secrets = (\<lambda>key. Inl (Exception ''no secrets file'')),
      makedirs = Inl (Exception ''read-only file system''),
      load_local = Inl (Exception ''could not open the index file''),
      pdf_load = (\<lambda>path. Inl (Exception ''file not found'')),
      split_documents = (\<lambda>cfg docs. []),
      from_documents = (\<lambda>chunks. Inl (Exception ''connection error'')),
      save_local = (\<lambda>vs. Inl (Exception ''read-only file system''))\<rparr>"

definition state0 :: state where
  "state0 = \<lparr>environ = [''OPENAI_API_KEY'' \<mapsto> ''sk-test''], index_exists = True,
             vectorstore_cache = Map.empty, chatbot_cache = None, trace = []\<rparr>"

definition state_nokey :: state where
  "state_nokey = \<lparr>environ = Map.empty, index_exists = True,
             vectorstore_cache = Map.empty, chatbot_cache = None, trace = []\<rparr>"

definition new_session :: session where
  "new_session = \<lparr>chatbot_initialized = False, session_qa_chain = None\<rparr>"


definition chain_ok :: qa_chain_obj where
  "chain_ok =
     \<lparr>retriever = \<lparr>search_type = ''mmr'', k = 6, fetch_k = 12, lambda_mult = 7 / 10\<rparr>,
      llm = \<lparr>model = ''gpt-4o-mini'', temperature = 0, openai_api_key = ''sk-test'',
             request_timeout = 60\<rparr>,
      chain_store = [page_doc 0 ''In the name of God'', page_doc 1 ''The House of God'']\<rparr>"


section \<open>The retriever\<close>

text \<open>
  \<open>create_qa_chain\<close> only configures the retriever; the search itself is the vector
  store library's. What follows is the search as the specification describes it. A chunk is
  named by its position in the index; the relevance of a chunk to the query and the
  similarity of two chunks come from the embeddings and are parameters.
\<close>

text \<open>
  Modelled from the spec: the candidate pool, missing from the sources (the library's
  search): "fetch a candidate pool of size \<open>fetch_k\<close> by nearest-neighbor distance". The
  positions of the index are ordered by decreasing relevance and the first \<open>fetch_k\<close>
  are kept.
\<close>

definition candidate_pool :: "retriever_config \<Rightarrow> (nat \<Rightarrow> rat) \<Rightarrow> nat \<Rightarrow> nat list" where
  "candidate_pool cfg relevance n = take (fetch_k cfg) (sort_key (\<lambda>i. - relevance i) [0..<n])"


text \<open>
  Modelled from the spec: \<open>max_similarity(candidate, already_selected)\<close>, missing from
  the sources; it is 0 while nothing is selected.
\<close>

fun max_similarity :: "(nat \<Rightarrow> nat \<Rightarrow> rat) \<Rightarrow> nat \<Rightarrow> nat list \<Rightarrow> rat" where
  "max_similarity similarity c [] = 0"
| "max_similarity similarity c [s] = similarity c s"
| "max_similarity similarity c (s # t # ss) = max (similarity c s) (max_similarity similarity c (t # ss))"


text \<open>
  Modelled from the spec: the score of a remaining candidate, missing from the sources:
  \<open>lambda * relevance(candidate, query) - (1 - lambda) * max_similarity(candidate,
  already_selected)\<close>.
\<close>

definition mmr_score ::
  "rat \<Rightarrow> (nat \<Rightarrow> rat) \<Rightarrow> (nat \<Rightarrow> nat \<Rightarrow> rat) \<Rightarrow> nat list \<Rightarrow> nat \<Rightarrow> rat" where
  "mmr_score lam relevance similarity selected c =
     lam * relevance c - (1 - lam) * max_similarity similarity c selected"


text \<open>
  Modelled from the spec: the choice of the remaining candidate with the greatest score,
  "ties broken by original relevance rank" (missing from the sources): the candidates are
  scanned in rank order and a later one wins only with a strictly greater score.
\<close>

fun best_candidate :: "(nat \<Rightarrow> rat) \<Rightarrow> nat \<Rightarrow> nat list \<Rightarrow> nat" where
  "best_candidate score b [] = b"
| "best_candidate score b (c # cs) = best_candidate score (if score b < score c then c else b) cs"


text \<open>
  Modelled from the spec: the selection loop, missing from the sources: "iteratively pick
  the remaining candidate maximizing" the score, until \<open>k\<close> are selected or none remains.
\<close>

fun mmr_select ::
  "nat \<Rightarrow> (nat list \<Rightarrow> nat \<Rightarrow> rat) \<Rightarrow> nat list \<Rightarrow> nat list \<Rightarrow> nat list" where
  "mmr_select 0 score remaining selected = selected"
| "mmr_select (Suc n) score [] selected = selected"
| "mmr_select (Suc n) score (c # cs) selected =
     (let best = best_candidate (score selected) c cs
      in mmr_select n score (remove1 best (c # cs)) (selected @ [best]))"


text \<open>
  Modelled from the spec: the retriever, missing from the sources: the positions selected
  from the candidate pool, and the chunks at these positions (the RetrievalResult).
\<close>

definition retrieve ::
  "retriever_config \<Rightarrow> (nat \<Rightarrow> rat) \<Rightarrow> (nat \<Rightarrow> nat \<Rightarrow> rat) \<Rightarrow> vectorstore \<Rightarrow> nat list" where
  "retrieve cfg relevance similarity index =
     mmr_select (k cfg) (mmr_score (lambda_mult cfg) relevance similarity)
       (candidate_pool cfg relevance (length index)) []"

definition retrieval_result ::
  "retriever_config \<Rightarrow> (nat \<Rightarrow> rat) \<Rightarrow> (nat \<Rightarrow> nat \<Rightarrow> rat) \<Rightarrow> vectorstore \<Rightarrow> doc list" where
  "retrieval_result cfg relevance similarity index =
     map (\<lambda>i. index ! i) (retrieve cfg relevance similarity index)"


text \<open>An index of three chunks with relevances and similarities, for concrete runs.\<close>

definition relevance_ex :: "nat \<Rightarrow> rat" where
  "relevance_ex i = [1 / 2, 9 / 10, 4 / 5] ! i"

definition similarity_ex :: "nat \<Rightarrow> nat \<Rightarrow> rat" where
  "similarity_ex i j = (if i = j then 1 else if i + j = 3 then 9 / 10 else 1 / 10)"

definition index_ex :: vectorstore where
  "index_ex = [page_doc 0 ''In the name of God'', page_doc 1 ''The House of God'', page_doc 1 ''A great loss'']"


section \<open>The chunker\<close>

text \<open>
  \<open>build_vectorstore\<close> only configures the text splitter (\<open>text_splitter\<close> above); the
  splitting is the library's. What follows is the chunker as the specification describes
  it.
\<close>

text \<open>
  Modelled from the spec: a boundary, missing from the sources (the library's splitter).
  An occurrence of the separator ends at position \<open>p\<close> of the text, so the text can be cut
  after it. The empty separator stands for "arbitrary character": every position is a
  boundary of it.
\<close>

definition ends_at :: "string \<Rightarrow> string \<Rightarrow> nat \<Rightarrow> bool" where
  "ends_at sep tx p =
     (length sep \<le> p \<and> p \<le> length tx \<and> take (length sep) (drop (p - length sep) tx) = sep)"


text \<open>
  Modelled from the spec: the boundary of a separator "within the size budget", missing
  from the sources: the last boundary at a position above \<open>lo\<close> (the overlap, so that the
  next chunk starts further on) and at most \<open>hi\<close> (the maximum chunk length).
\<close>

fun last_boundary :: "string \<Rightarrow> string \<Rightarrow> nat \<Rightarrow> nat \<Rightarrow> nat option" where
  "last_boundary sep tx lo 0 = None"
| "last_boundary sep tx lo (Suc h) =
     (if Suc h \<le> lo then None
      else if ends_at sep tx (Suc h) then Some (Suc h)
      else last_boundary sep tx lo h)"


text \<open>
  Modelled from the spec: where the text is cut, missing from the sources: "splitting
  prefers natural boundaries in priority order ..., falling back down the list only when
  a higher-priority boundary is unavailable within the size budget"; when no separator
  has a boundary, the span "is still split at the maximum length".
\<close>

fun cut_point :: "string list \<Rightarrow> string \<Rightarrow> nat \<Rightarrow> nat \<Rightarrow> nat" where
  "cut_point [] tx lo hi = hi"
| "cut_point (sep # seps) tx lo hi =
     (case last_boundary sep tx lo hi of
        Some p \<Rightarrow> p
      | None \<Rightarrow> cut_point seps tx lo hi)"


lemma last_boundary_Some:
  "last_boundary sep tx lo hi = Some p \<Longrightarrow>
     lo < p \<and> p \<le> hi \<and> ends_at sep tx p \<and> (\<forall>q. p < q \<and> q \<le> hi \<longrightarrow> \<not> ends_at sep tx q)"
proof (induction hi)
  case 0
  then show ?case by simp
next
  case (Suc h)
  show ?case
  proof (cases "Suc h \<le> lo")
    case True
    then show ?thesis using Suc.prems by simp
  next
    case out: False
    show ?thesis
    proof (cases "ends_at sep tx (Suc h)")
      case True
      then have "p = Suc h" using Suc.prems out by simp
      then show ?thesis using True out by auto
    next
      case False
      then have "last_boundary sep tx lo h = Some p" using Suc.prems out by simp
      then have ih: "lo < p \<and> p \<le> h \<and> ends_at sep tx p \<and> (\<forall>q. p < q \<and> q \<le> h \<longrightarrow> \<not> ends_at sep tx q)"
        by (rule Suc.IH)
      have "\<not> ends_at sep tx q" if "p < q \<and> q \<le> Suc h" for q
      proof (cases "q = Suc h")
        case True
        then show ?thesis using False by simp
      next
        case False
        then have "p < q \<and> q \<le> h" using that by simp
        then show ?thesis using ih by blast
      qed
      then show ?thesis using ih by auto
    qed
  qed
qed

lemma last_boundary_None:
  "last_boundary sep tx lo hi = None \<Longrightarrow> \<forall>q. lo < q \<and> q \<le> hi \<longrightarrow> \<not> ends_at sep tx q"
proof (induction hi)
  case 0
  then show ?case by simp
next
  case (Suc h)
  show ?case
  proof (cases "Suc h \<le> lo")
    case True
    then show ?thesis by auto
  next
    case out: False
    then have e: "\<not> ends_at sep tx (Suc h)" and r: "last_boundary sep tx lo h = None"
      using Suc.prems by (auto split: if_splits)
    have ih: "\<forall>q. lo < q \<and> q \<le> h \<longrightarrow> \<not> ends_at sep tx q" using r by (rule Suc.IH)
    show ?thesis
    proof (intro allI impI)
      fix q assume q: "lo < q \<and> q \<le> Suc h"
      show "\<not> ends_at sep tx q"
      proof (cases "q = Suc h")
        case True
        then show ?thesis using e by simp
      next
        case False
        then have "lo < q \<and> q \<le> h" using q by simp
        then show ?thesis using ih by blast
      qed
    qed
  qed
qed










section \<open>Auxiliary facts\<close>

subsection \<open>Insertion-ordered deduplication\<close>

lemma fromkeys_snoc:
  "fromkeys (xs @ [z]) = (if z \<in> set (fromkeys xs) then fromkeys xs else fromkeys xs @ [z])"
  by (simp add: fromkeys_def)

lemma set_fromkeys: "set (fromkeys xs) = set xs"
  by (induction xs rule: rev_induct) (auto simp: fromkeys_snoc, simp add: fromkeys_def)

lemma distinct_fromkeys: "distinct (fromkeys xs)"
  by (induction xs rule: rev_induct) (simp_all add: fromkeys_snoc, simp add: fromkeys_def)

lemma first_index_less: "x \<in> set xs \<Longrightarrow> first_index xs x < length xs"
  unfolding first_index_def by (induction xs) auto

lemma first_index_append:
  "first_index (xs @ ys) x = (if x \<in> set xs then first_index xs x else length xs + first_index ys x)"
  unfolding first_index_def by (induction xs) auto

lemma first_order_fromkeys:
  "sorted_wrt (\<lambda>a b. first_index xs a < first_index xs b) (fromkeys xs)"
proof (induction xs rule: rev_induct)
  case Nil
  show ?case by (simp add: fromkeys_def)
next
  case (snoc z xs)
  have mono: "sorted_wrt (\<lambda>a b. first_index (xs @ [z]) a < first_index (xs @ [z]) b) (fromkeys xs)"
    using snoc
    by (rule sorted_wrt_mono_rel[rotated]) (simp add: first_index_append set_fromkeys)
  show ?case
  proof (cases "z \<in> set xs")
    case True
    then show ?thesis using mono by (simp add: fromkeys_snoc set_fromkeys)
  next
    case False
    then show ?thesis using mono
      by (auto simp: fromkeys_snoc set_fromkeys sorted_wrt_append first_index_append
          intro: trans_less_add1 first_index_less)
  qed
qed

subsection \<open>The sorted list of sources and its formatting\<close>

lemma unique_sources_sorted: "sorted_wrt (<) (unique_sources srcs)"
  by (simp add: unique_sources_def)

lemma set_unique_sources:
  "set (unique_sources srcs) = py_str ` {s \<in> set srcs. s \<noteq> PyStr ''unknown''}"
  by (auto simp add: unique_sources_def)

lemma format_sources_listing:
  "format_sources srcs =
     (if srcs = [] then ''**Sources:** No specific pages referenced''
      else if unique_sources srcs = [] then ''**Sources:** Page numbers not available''
      else (if length (unique_sources srcs) = 1 then ''**Source:** Page '' else ''**Sources:** Pages '')
           @ join '', '' (take 5 (unique_sources srcs))
           @ (if length (unique_sources srcs) \<le> 5 then []
              else '' and '' @ str_nat (length (unique_sources srcs) - 5) @ '' more''))"
proof (cases "unique_sources srcs")
  case Nil
  then show ?thesis by (simp add: format_sources_def)
next
  case (Cons u us)
  then show ?thesis by (cases us) (simp_all add: format_sources_def Let_def)
qed

lemma sorted_positions:
  assumes "sorted_wrt (<) (us :: string list)" "a \<in> set us" "b \<in> set us" "a < b"
  shows "\<exists>i j. i < j \<and> j < length us \<and> us ! i = a \<and> us ! j = b"
proof -
  obtain i where i: "i < length us" "us ! i = a" using assms(2) by (auto simp: in_set_conv_nth)
  obtain j where j: "j < length us" "us ! j = b" using assms(3) by (auto simp: in_set_conv_nth)
  have "\<not> j \<le> i"
  proof
    assume "j \<le> i"
    then have "j = i \<or> j < i" by auto
    then show False
    proof
      assume "j = i" then show False using i j assms(4) by simp
    next
      assume ji: "j < i"
      have "us ! j < us ! i" by (rule sorted_wrt_nth_less[OF assms(1) ji i(1)])
      then show False using i j assms(4) by simp
    qed
  qed
  then have "i < j" by simp
  then have "i < j \<and> j < length us \<and> us ! i = a \<and> us ! j = b" using i j by simp
  then show ?thesis by blast
qed

lemma dropWhile_pad: "\<forall>c \<in> set p. P c \<Longrightarrow> dropWhile P (p @ s) = dropWhile P s"
  by (induction p) auto

lemma strip_padding:
  assumes "\<forall>c \<in> set p1. is_space c" "\<forall>c \<in> set p2. is_space c"
  shows "strip (p1 @ q @ p2) = strip q"
proof -
  have 1: "dropWhile is_space (p1 @ q @ p2) = dropWhile is_space q @ p2 \<or> (dropWhile is_space q = [] \<and> dropWhile is_space (p1 @ q @ p2) = [])"
  proof (cases "\<forall>c \<in> set q. is_space c")
    case True
    then have "dropWhile is_space q = []" by simp
    moreover have "dropWhile is_space (p1 @ q @ p2) = []" using assms True by auto
    ultimately show ?thesis by simp
  next
    case False
    then have "dropWhile is_space (q @ p2) = dropWhile is_space q @ p2"
      by (auto simp: dropWhile_append)
    then show ?thesis using assms(1) by (simp add: dropWhile_pad)
  qed
  then show ?thesis
  proof
    assume "dropWhile is_space (p1 @ q @ p2) = dropWhile is_space q @ p2"
    moreover have "dropWhile is_space (rev p2 @ rev (dropWhile is_space q))
        = dropWhile is_space (rev (dropWhile is_space q))"
      using assms(2) by (intro dropWhile_pad) simp
    ultimately show ?thesis by (simp add: strip_def)
  next
    assume a: "dropWhile is_space q = [] \<and> dropWhile is_space (p1 @ q @ p2) = []"
    have q0: "dropWhile is_space q = []" and p0: "dropWhile is_space (p1 @ q @ p2) = []"
      using a by blast+
    show ?thesis unfolding strip_def q0 p0 by simp
  qed
qed

lemma listed_before:
  assumes d: "distinct us" and ij: "i < j" "j < length us"
    and b: "us ! j \<in> set (take n us)"
  shows "i < j \<and> j < length (take n us) \<and> take n us ! i = us ! i \<and> take n us ! j = us ! j"
proof -
  obtain m where m: "m < length (take n us)" "take n us ! m = us ! j"
    using b by (auto simp: in_set_conv_nth)
  have mn: "m < n" "m < length us" using m(1) by simp_all
  have "us ! m = us ! j" using m by simp
  then have "m = j" using d mn(2) ij(2) by (simp add: nth_eq_iff_index_eq)
  then have "j < n" using mn(1) by simp
  then show ?thesis using ij by simp
qed


subsection \<open>The successful path of get_response\<close>

lemma collected_pages_eq:
  "map page_or_unknown (filter has_page docs) = collected_pages docs"
  unfolding collected_pages_def
  by (induction docs)
     (auto simp: page_attribute_def has_page_def page_or_unknown_def
           split: option.splits pyval.splits)

lemma get_response_Inr:
  "qa_chain (strip question) = Inr result \<Longrightarrow>
   get_response qa_chain question =
     Inr \<lparr>answer = (case res_answer result of None \<Rightarrow> ''I couldn't generate a response.'' | Some a \<Rightarrow> a),
          sources = extract_sources result,
          context_docs = (case res_context result of None \<Rightarrow> [] | Some docs \<Rightarrow> docs)\<rparr>"
  by (simp add: get_response_def try_except_def)

lemma extract_sources_Some:
  "res_context result = Some docs \<Longrightarrow> extract_sources result = fromkeys (collected_pages docs)"
  by (cases "docs = []") (simp_all add: extract_sources_def collected_pages_eq collected_pages_def fromkeys_def)


subsection \<open>Startup\<close>

lemma build_fst: "fst (build_vectorstore w p s) = build_outcome w p"
proof (cases "makedirs w")
  case Inl
  then show ?thesis by (simp add: build_vectorstore_def build_outcome_def Let_def)
next
  case m: (Inr u)
  show ?thesis
  proof (cases "pdf_load w p")
    case Inl
    then show ?thesis using m by (simp add: build_vectorstore_def build_outcome_def Let_def)
  next
    case d: (Inr docs)
    show ?thesis
    proof (cases "secrets w ''OPENAI_API_KEY''")
      case Inl
      then show ?thesis using m d by (simp add: build_vectorstore_def build_outcome_def Let_def)
    next
      case k: (Inr key)
      show ?thesis
      proof (cases "from_documents w (split_documents w text_splitter docs)")
        case Inl
        then show ?thesis using m d k by (simp add: build_vectorstore_def build_outcome_def Let_def)
      next
        case f: (Inr vs)
        show ?thesis
          using m d k f by (cases "save_local w vs") (simp_all add: build_vectorstore_def build_outcome_def Let_def)
      qed
    qed
  qed
qed


lemma cache_resource_miss:
  "lookup s = None \<Longrightarrow> fst (cache_resource lookup store body s) = fst (body s)"
  by (cases "body s"; cases "fst (body s)") (simp_all add: cache_resource_def)

lemma cache_resource_hit:
  "lookup s = Some c \<Longrightarrow> cache_resource lookup store body s = (Inr c, s)"
  by (simp add: cache_resource_def)

lemma cache_resource_stored:
  assumes st: "\<And>v t. lookup (store v t) = Some v"
    and run: "cache_resource lookup store body s = (Inr c, s')"
  shows "lookup s' = Some c"
proof (cases "lookup s")
  case None
  obtain r t where b: "body s = (r, t)" by (cases "body s")
  show ?thesis
  proof (cases r)
    case (Inl e)
    then show ?thesis using run None b by (simp add: cache_resource_def)
  next
    case (Inr v)
    then have "s' = store v t \<and> c = v" using run None b by (auto simp: cache_resource_def)
    then show ?thesis by (simp add: st)
  qed
next
  case (Some v)
  then show ?thesis using run by (simp add: cache_resource_def)
qed

lemma body_fst:
  "fst (load_or_create_vectorstore_body w p s) =
     (if index_exists s
      then (case secrets w ''OPENAI_API_KEY'' of
              Inl e \<Rightarrow> build_outcome w p
            | Inr key \<Rightarrow> (case load_local w of Inr vs \<Rightarrow> Inr vs | Inl e \<Rightarrow> build_outcome w p))
      else build_outcome w p)"
  by (cases "secrets w ''OPENAI_API_KEY''"; cases "load_local w")
     (simp_all add: load_or_create_vectorstore_body_def build_fst)

lemma load_fst:
  "vectorstore_cache s p = None \<Longrightarrow>
     fst (load_or_create_vectorstore w p s) = fst (load_or_create_vectorstore_body w p s)"
  unfolding load_or_create_vectorstore_def by (rule cache_resource_miss)

lemma validate_fst:
  "fst (validate_environment w s) =
     (if not_getenv (load_dotenv w (environ s)) ''OPENAI_API_KEY''
      then Inl (ValueError ''Missing required environment variables: OPENAI_API_KEY. Please set them in your .env file or Streamlit secrets.'')
      else Inr ())"
  by (simp add: validate_environment_def Let_def required_vars_def called_def)

lemma validate_snd:
  "vectorstore_cache (snd (validate_environment w s)) = vectorstore_cache s"
  "index_exists (snd (validate_environment w s)) = index_exists s"
  by (simp_all add: validate_environment_def Let_def required_vars_def called_def)

lemma init_body_fst:
  "fst (initialize_chatbot_body w s) =
     (case fst (validate_environment w s) of
        Inl e \<Rightarrow> Inl e
      | Inr u \<Rightarrow>
          (case fst (load_or_create_vectorstore w pdf_path0 (snd (validate_environment w s))) of
             Inl e \<Rightarrow> Inl e
           | Inr vs \<Rightarrow> create_qa_chain w vs))"
proof -
  obtain r s1 where v: "validate_environment w s = (r, s1)" by (cases "validate_environment w s")
  obtain r2 s2 where l: "load_or_create_vectorstore w pdf_path0 s1 = (r2, s2)"
    by (cases "load_or_create_vectorstore w pdf_path0 s1")
  show ?thesis
  proof (cases r)
    case (Inl e)
    then show ?thesis using v by (simp add: initialize_chatbot_body_def)
  next
    case ra: (Inr u)
    show ?thesis
    proof (cases r2)
      case (Inl e)
      then show ?thesis using v l ra by (simp add: initialize_chatbot_body_def)
    next
      case (Inr vs)
      then show ?thesis using v l ra
        by (cases "create_qa_chain w vs") (simp_all add: initialize_chatbot_body_def)
    qed
  qed
qed

lemma init_fst:
  "chatbot_cache s = None \<Longrightarrow> fst (initialize_chatbot w s) = fst (initialize_chatbot_body w s)"
  unfolding initialize_chatbot_def by (rule cache_resource_miss)

lemma start_session_stops:
  assumes "\<not> chatbot_initialized sess" and "fst (initialize_chatbot w s) = Inl e"
  shows "fst (start_session w sess s) = Stopped \<and> fst (snd (start_session w sess s)) = sess"
proof -
  obtain r s' where i: "initialize_chatbot w s = (r, s')" by (cases "initialize_chatbot w s")
  then have "r = Inl e" using assms(2) by simp
  then show ?thesis using assms(1) i by (simp add: start_session_def)
qed

lemma not_getenv_iff: "not_getenv e var \<longleftrightarrow> e var = None \<or> e var = Some []"
  by (auto simp: not_getenv_def split: option.splits)


lemma init_ok: "fst (initialize_chatbot world_ok state0) = Inr chain_ok"
proof -
  have c: "chatbot_cache state0 = None" by (simp add: state0_def)
  have v: "fst (validate_environment world_ok state0) = Inr ()"
    by (simp add: validate_fst not_getenv_def world_ok_def state0_def)
  have vc: "vectorstore_cache (snd (validate_environment world_ok state0)) pdf_path0 = None"
    by (simp add: validate_snd state0_def)
  have l: "fst (load_or_create_vectorstore world_ok pdf_path0 (snd (validate_environment world_ok state0)))
      = Inr [page_doc 0 ''In the name of God'', page_doc 1 ''The House of God'']"
    unfolding load_fst[OF vc] body_fst
    by (simp add: build_outcome_def world_ok_def)
  have q: "create_qa_chain world_ok [page_doc 0 ''In the name of God'', page_doc 1 ''The House of God''] = Inr chain_ok"
    by (simp add: create_qa_chain_def world_ok_def chain_ok_def)
  show ?thesis
    unfolding init_fst[OF c] init_body_fst v l by (simp add: q)
qed


subsection \<open>Retrieval\<close>

lemma best_candidate_in: "best_candidate score b cs \<in> set (b # cs)"
  by (induction cs arbitrary: b) auto

lemma mmr_select_length:
  "length (mmr_select n score remaining selected) \<le> length selected + n"
proof (induction n score remaining selected rule: mmr_select.induct)
  case (3 n score c cs selected)
  then show ?case by (simp add: Let_def)
qed simp_all

lemma mmr_select_set:
  "set (mmr_select n score remaining selected) \<subseteq> set selected \<union> set remaining"
proof (induction n score remaining selected rule: mmr_select.induct)
  case (3 n score c cs selected)
  let ?b = "best_candidate (score selected) c cs"
  have b: "?b \<in> set (c # cs)" by (rule best_candidate_in)
  have "set (mmr_select n score (remove1 ?b (c # cs)) (selected @ [?b]))
      \<subseteq> set (selected @ [?b]) \<union> set (remove1 ?b (c # cs))"
    using 3 by simp
  also have "\<dots> \<subseteq> set selected \<union> set (c # cs)"
    using b set_remove1_subset[of ?b "c # cs"] by auto
  finally show ?case by (simp add: Let_def)
qed simp_all

lemma mmr_select_distinct:
  "distinct remaining \<Longrightarrow> distinct selected \<Longrightarrow> set selected \<inter> set remaining = {} \<Longrightarrow>
   distinct (mmr_select n score remaining selected)"
proof (induction n score remaining selected rule: mmr_select.induct)
  case (3 n score c cs selected)
  let ?b = "best_candidate (score selected) c cs"
  have b: "?b \<in> set (c # cs)" by (rule best_candidate_in)
  have d1: "distinct (remove1 ?b (c # cs))" using 3(2) by (rule distinct_remove1)
  have d2: "distinct (selected @ [?b])" using 3(3,4) b by auto
  have d3: "set (selected @ [?b]) \<inter> set (remove1 ?b (c # cs)) = {}"
    using 3(2,4) b set_remove1_eq[OF 3(2), of ?b] by auto
  have "distinct (mmr_select n score (remove1 ?b (c # cs)) (selected @ [?b]))"
    using 3(1)[OF refl d1 d2 d3] .
  then show ?case by (simp add: Let_def)
qed simp_all

lemma candidate_pool_distinct: "distinct (candidate_pool cfg relevance n)"
  by (simp add: candidate_pool_def)

lemma candidate_pool_set: "set (candidate_pool cfg relevance n) \<subseteq> {0..<n}"
  unfolding candidate_pool_def using set_take_subset[of "fetch_k cfg" "sort_key (\<lambda>i. - relevance i) [0..<n]"]
  by auto

subsection \<open>Chunking\<close>



lemma last_boundary_None_iff:
  "last_boundary sep tx lo hi = None \<longleftrightarrow> (\<forall>q. lo < q \<and> q \<le> hi \<longrightarrow> \<not> ends_at sep tx q)"
proof
  assume "last_boundary sep tx lo hi = None"
  then show "\<forall>q. lo < q \<and> q \<le> hi \<longrightarrow> \<not> ends_at sep tx q" by (rule last_boundary_None)
next
  assume a: "\<forall>q. lo < q \<and> q \<le> hi \<longrightarrow> \<not> ends_at sep tx q"
  show "last_boundary sep tx lo hi = None"
  proof (cases "last_boundary sep tx lo hi")
    case None
    then show ?thesis .
  next
    case (Some p)
    then show ?thesis using last_boundary_Some[OF Some] a by blast
  qed
qed


lemma cut_point_fallback:
  "\<forall>j<length seps. last_boundary (seps ! j) tx lo hi = None \<Longrightarrow> cut_point seps tx lo hi = hi"
proof (induction seps)
  case Nil
  then show ?case by simp
next
  case (Cons sep seps)
  have h: "last_boundary sep tx lo hi = None" using Cons.prems by auto
  have "\<forall>j<length seps. last_boundary (seps ! j) tx lo hi = None"
  proof (intro allI impI)
    fix j assume "j < length seps"
    then have "last_boundary ((sep # seps) ! Suc j) tx lo hi = None" using Cons.prems by auto
    then show "last_boundary (seps ! j) tx lo hi = None" by simp
  qed
  then show ?case using Cons.IH h by simp
qed


lemma cut_point_unbreakable:
  assumes "\<forall>j<length seps. \<forall>p. lo < p \<and> p \<le> hi \<longrightarrow> \<not> ends_at (seps ! j) tx p"
  shows "cut_point seps tx lo hi = hi"
  by (rule cut_point_fallback) (use assms in \<open>simp add: last_boundary_None_iff\<close>)



section \<open>Claims\<close>

text \<open>
  C1 (as amended). When the chain returns a result with retrieved documents,
  \<open>get_response\<close> returns normally, and its sources are the page attributes of the
  documents that have one (absent and \<open>None\<close> attributes are skipped), without
  duplicates and in the order of their first occurrence among the documents. The citation
  line that is displayed does not keep that order: \<open>format_sources\<close> lists the string
  forms of the sources other than \<open>unknown\<close>, without duplicates, in ascending
  lexicographic order, and at most the first five of them.
\<close>

theorem citation_pipeline_order:
  assumes "qa_chain (strip question) = Inr result" and "res_context result = Some docs"
  shows "\<exists>r. get_response qa_chain question = Inr r
           \<and> set (sources r) = set (collected_pages docs)
           \<and> distinct (sources r)
           \<and> sorted_wrt (\<lambda>a b. first_index (collected_pages docs) a < first_index (collected_pages docs) b) (sources r)
           \<and> sorted_wrt (<) (unique_sources (sources r))
           \<and> set (unique_sources (sources r)) = py_str ` {s \<in> set (sources r). s \<noteq> PyStr ''unknown''}
           \<and> format_sources (sources r) =
               (if sources r = [] then ''**Sources:** No specific pages referenced''
                else if unique_sources (sources r) = [] then ''**Sources:** Page numbers not available''
                else (if length (unique_sources (sources r)) = 1 then ''**Source:** Page '' else ''**Sources:** Pages '')
                     @ join '', '' (take 5 (unique_sources (sources r)))
                     @ (if length (unique_sources (sources r)) \<le> 5 then []
                        else '' and '' @ str_nat (length (unique_sources (sources r)) - 5) @ '' more''))"
proof -
  let ?r = "\<lparr>answer = (case res_answer result of None \<Rightarrow> ''I couldn't generate a response.'' | Some a \<Rightarrow> a),
          sources = extract_sources result,
          context_docs = (case res_context result of None \<Rightarrow> [] | Some docs \<Rightarrow> docs)\<rparr>"
  have r: "get_response qa_chain question = Inr ?r"
    using assms(1) by (rule get_response_Inr)
  have s: "sources ?r = fromkeys (collected_pages docs)"
    by (simp add: extract_sources_Some[OF assms(2)])
  have "set (sources ?r) = set (collected_pages docs)"
    unfolding s by (rule set_fromkeys)
  moreover have "distinct (sources ?r)"
    unfolding s by (rule distinct_fromkeys)
  moreover have "sorted_wrt (\<lambda>a b. first_index (collected_pages docs) a < first_index (collected_pages docs) b) (sources ?r)"
    unfolding s by (rule first_order_fromkeys)
  moreover note unique_sources_sorted[of "sources ?r"] set_unique_sources[of "sources ?r"]
    format_sources_listing[of "sources ?r"]
  ultimately show ?thesis using r by blast
qed

theorem citation_pipeline_order_witness:
  "returning \<lparr>res_answer = Some ''ok'', res_context = Some
       [\<lparr>page_content = ''b'', metadata = [''page'' \<mapsto> PyInt 2]\<rparr>,
        \<lparr>page_content = ''c'', metadata = Map.empty\<rparr>,
        \<lparr>page_content = ''a'', metadata = [''page'' \<mapsto> PyInt 1]\<rparr>,
        \<lparr>page_content = ''d'', metadata = [''page'' \<mapsto> PyInt 2]\<rparr>]\<rparr> (strip '' q '')
   = Inr \<lparr>res_answer = Some ''ok'', res_context = Some
       [\<lparr>page_content = ''b'', metadata = [''page'' \<mapsto> PyInt 2]\<rparr>,
        \<lparr>page_content = ''c'', metadata = Map.empty\<rparr>,
        \<lparr>page_content = ''a'', metadata = [''page'' \<mapsto> PyInt 1]\<rparr>,
        \<lparr>page_content = ''d'', metadata = [''page'' \<mapsto> PyInt 2]\<rparr>]\<rparr>
   \<and> (\<exists>r. get_response (returning \<lparr>res_answer = Some ''ok'', res_context = Some
       [\<lparr>page_content = ''b'', metadata = [''page'' \<mapsto> PyInt 2]\<rparr>,
        \<lparr>page_content = ''c'', metadata = Map.empty\<rparr>,
        \<lparr>page_content = ''a'', metadata = [''page'' \<mapsto> PyInt 1]\<rparr>,
        \<lparr>page_content = ''d'', metadata = [''page'' \<mapsto> PyInt 2]\<rparr>]\<rparr>) '' q '' = Inr r
      \<and> distinct (sources r) \<and> sorted_wrt (<) (unique_sources (sources r)))"
  using citation_pipeline_order [of
     "returning \<lparr>res_answer = Some ''ok'', res_context = Some
       [\<lparr>page_content = ''b'', metadata = [''page'' \<mapsto> PyInt 2]\<rparr>,
        \<lparr>page_content = ''c'', metadata = Map.empty\<rparr>,
        \<lparr>page_content = ''a'', metadata = [''page'' \<mapsto> PyInt 1]\<rparr>,
        \<lparr>page_content = ''d'', metadata = [''page'' \<mapsto> PyInt 2]\<rparr>]\<rparr>"
     "'' q ''"
     "\<lparr>res_answer = Some ''ok'', res_context = Some
       [\<lparr>page_content = ''b'', metadata = [''page'' \<mapsto> PyInt 2]\<rparr>,
        \<lparr>page_content = ''c'', metadata = Map.empty\<rparr>,
        \<lparr>page_content = ''a'', metadata = [''page'' \<mapsto> PyInt 1]\<rparr>,
        \<lparr>page_content = ''d'', metadata = [''page'' \<mapsto> PyInt 2]\<rparr>]\<rparr>"
     "[\<lparr>page_content = ''b'', metadata = [''page'' \<mapsto> PyInt 2]\<rparr>,
        \<lparr>page_content = ''c'', metadata = Map.empty\<rparr>,
        \<lparr>page_content = ''a'', metadata = [''page'' \<mapsto> PyInt 1]\<rparr>,
        \<lparr>page_content = ''d'', metadata = [''page'' \<mapsto> PyInt 2]\<rparr>]"]
  by auto

text \<open>
  C1 as stated fails: for documents of pages 2 and 1, in this order, the sources are
  \<open>[2, 1]\<close>, and the displayed citation line lists page 1 before page 2.
\<close>

theorem citation_display_order_counterexample:
  "get_response (returning \<lparr>res_answer = Some ''ok'', res_context = Some
       [\<lparr>page_content = ''b'', metadata = [''page'' \<mapsto> PyInt 2]\<rparr>,
        \<lparr>page_content = ''a'', metadata = [''page'' \<mapsto> PyInt 1]\<rparr>]\<rparr>) ''q''
   = Inr \<lparr>answer = ''ok'', sources = [PyInt 2, PyInt 1], context_docs =
       [\<lparr>page_content = ''b'', metadata = [''page'' \<mapsto> PyInt 2]\<rparr>,
        \<lparr>page_content = ''a'', metadata = [''page'' \<mapsto> PyInt 1]\<rparr>]\<rparr>
   \<and> format_sources [PyInt 2, PyInt 1] = ''**Sources:** Pages 1, 2''
   \<and> assistant_message (returning \<lparr>res_answer = Some ''ok'', res_context = Some
       [\<lparr>page_content = ''b'', metadata = [''page'' \<mapsto> PyInt 2]\<rparr>,
        \<lparr>page_content = ''a'', metadata = [''page'' \<mapsto> PyInt 1]\<rparr>]\<rparr>) ''q''
     = ''ok'' @ [CHR 0x0A, CHR 0x0A] @ ''**Sources:** Pages 1, 2''"
proof -
  have f: "format_sources [PyInt 2, PyInt 1] = ''**Sources:** Pages 1, 2''"
    by code_simp
  have g: "get_response (returning \<lparr>res_answer = Some ''ok'', res_context = Some
       [\<lparr>page_content = ''b'', metadata = [''page'' \<mapsto> PyInt 2]\<rparr>,
        \<lparr>page_content = ''a'', metadata = [''page'' \<mapsto> PyInt 1]\<rparr>]\<rparr>) ''q''
   = Inr \<lparr>answer = ''ok'', sources = [PyInt 2, PyInt 1], context_docs =
       [\<lparr>page_content = ''b'', metadata = [''page'' \<mapsto> PyInt 2]\<rparr>,
        \<lparr>page_content = ''a'', metadata = [''page'' \<mapsto> PyInt 1]\<rparr>]\<rparr>"
    by (simp add: get_response_def try_except_def extract_sources_def fromkeys_def
          has_page_def page_or_unknown_def)
  show ?thesis
    by (simp add: assistant_message_def response_text_def g f)
qed




text \<open>
  C3. \<open>get_response\<close> returns normally for every chain and every question: no
  exception leaves it. When invoking the chain raises an exception, the response has a
  non-empty answer that describes the error (it embeds the exception's message) and empty
  lists of sources and context documents, and the message shown is that answer.
\<close>

theorem get_response_failure_isolated:
  "(\<exists>r. get_response qa_chain question = Inr r)
   \<and> (qa_chain (strip question) = Inl e \<longrightarrow>
        get_response qa_chain question =
          Inr \<lparr>answer = ''I encountered an error while processing your question: ''
                          @ exn_str e @ ''. Please try rephrasing your question.'',
               sources = [], context_docs = []\<rparr>
        \<and> (\<forall>r. get_response qa_chain question = Inr r \<longrightarrow> answer r \<noteq> [] \<and> sources r = [])
        \<and> assistant_message qa_chain question =
            ''I encountered an error while processing your question: ''
              @ exn_str e @ ''. Please try rephrasing your question.'')"
  by (cases "qa_chain (strip question)")
     (auto simp: get_response_def try_except_def assistant_message_def response_text_def)

theorem get_response_failure_isolated_witness:
  "raising (Exception ''Request timed out.'') (strip ''Who was Khadijah?'') = Inl (Exception ''Request timed out.'')
   \<and> get_response (raising (Exception ''Request timed out.'')) ''Who was Khadijah?'' =
       Inr \<lparr>answer = ''I encountered an error while processing your question: Request timed out.. Please try rephrasing your question.'',
            sources = [], context_docs = []\<rparr>"
  using get_response_failure_isolated [of "raising (Exception ''Request timed out.'')" "''Who was Khadijah?''"
      "Exception ''Request timed out.''"]
  by simp


text \<open>
  C9 (as amended). The citation line orders the pages by lexicographic comparison of their
  string forms, not numerically: whenever two sources \<open>a\<close> and \<open>b\<close> of the input (other
  than \<open>unknown\<close>) have string forms with \<open>str a < str b\<close> as strings, \<open>str a\<close> stands
  before \<open>str b\<close> in the sorted list, and the line shows the first five entries of that
  list. So whenever \<open>str b\<close> is shown, \<open>str a\<close> is shown before it, and both are shown
  when there are at most five distinct pages; with more than five, \<open>str b\<close> may be left
  out. The string "10" is below "2", for string and for integer pages, so page 10 is
  listed before page 2 whenever page 2 is listed.
\<close>

theorem format_sources_lexicographic:
  assumes "a \<in> set srcs" and "b \<in> set srcs"
    and "a \<noteq> PyStr ''unknown''" and "b \<noteq> PyStr ''unknown''"
    and "py_str a < py_str b"
  shows "sorted_wrt (<) (unique_sources srcs)
    \<and> (\<exists>i j. i < j \<and> j < length (unique_sources srcs)
          \<and> unique_sources srcs ! i = py_str a \<and> unique_sources srcs ! j = py_str b)
    \<and> format_sources srcs =
        ''**Sources:** Pages '' @ join '', '' (take 5 (unique_sources srcs))
          @ (if length (unique_sources srcs) \<le> 5 then []
             else '' and '' @ str_nat (length (unique_sources srcs) - 5) @ '' more'')
    \<and> (py_str b \<in> set (take 5 (unique_sources srcs)) \<longrightarrow>
          (\<exists>i j. i < j \<and> j < length (take 5 (unique_sources srcs))
             \<and> take 5 (unique_sources srcs) ! i = py_str a
             \<and> take 5 (unique_sources srcs) ! j = py_str b))
    \<and> (length (unique_sources srcs) \<le> 5 \<longrightarrow> py_str b \<in> set (take 5 (unique_sources srcs)))
    \<and> py_str (PyStr ''10'') < py_str (PyStr ''2'')
    \<and> py_str (PyInt 10) < py_str (PyInt 2)"
proof -
  let ?us = "unique_sources srcs"
  have ina: "py_str a \<in> set ?us" and inb: "py_str b \<in> set ?us"
    using assms by (auto simp: set_unique_sources)
  have pos: "\<exists>i j. i < j \<and> j < length ?us \<and> ?us ! i = py_str a \<and> ?us ! j = py_str b"
    by (rule sorted_positions[OF unique_sources_sorted ina inb assms(5)])
  then have "2 \<le> length ?us" by auto
  then have ne: "srcs \<noteq> []" "?us \<noteq> []" "length ?us \<noteq> 1"
    using assms(1) by auto
  have fmt: "format_sources srcs =
        ''**Sources:** Pages '' @ join '', '' (take 5 ?us)
          @ (if length ?us \<le> 5 then []
             else '' and '' @ str_nat (length ?us - 5) @ '' more'')"
    using ne by (simp add: format_sources_listing)
  have dist: "distinct ?us"
    using unique_sources_sorted[of srcs] by (simp add: strict_sorted_iff)
  have shown: "py_str b \<in> set (take 5 ?us) \<longrightarrow>
          (\<exists>i j. i < j \<and> j < length (take 5 ?us)
             \<and> take 5 ?us ! i = py_str a \<and> take 5 ?us ! j = py_str b)"
  proof
    assume l: "py_str b \<in> set (take 5 ?us)"
    obtain i j where ij: "i < j" "j < length ?us" "?us ! i = py_str a" "?us ! j = py_str b"
      using pos by blast
    have "?us ! j \<in> set (take 5 ?us)" using l ij(4) by simp
    then have "i < j \<and> j < length (take 5 ?us) \<and> take 5 ?us ! i = ?us ! i \<and> take 5 ?us ! j = ?us ! j"
      by (rule listed_before[OF dist ij(1) ij(2)])
    then have "i < j \<and> j < length (take 5 ?us) \<and> take 5 ?us ! i = py_str a \<and> take 5 ?us ! j = py_str b"
      using ij(3,4) by simp
    then show "\<exists>i j. i < j \<and> j < length (take 5 ?us)
             \<and> take 5 ?us ! i = py_str a \<and> take 5 ?us ! j = py_str b"
      by blast
  qed
  have few: "length ?us \<le> 5 \<longrightarrow> py_str b \<in> set (take 5 ?us)"
    using inb by simp
  have s: "py_str (PyStr ''10'') < py_str (PyStr ''2'')" by simp
  have i: "py_str (PyInt 10) < py_str (PyInt 2)" by code_simp
  show ?thesis
    by (intro conjI) (rule unique_sources_sorted, rule pos, rule fmt, rule shown, rule few, rule s, rule i)
qed

theorem format_sources_lexicographic_witness:
  "PyInt 10 \<in> set [PyInt 2, PyInt 10] \<and> PyInt 2 \<in> set [PyInt 2, PyInt 10]
   \<and> PyInt 10 \<noteq> PyStr ''unknown'' \<and> PyInt 2 \<noteq> PyStr ''unknown''
   \<and> py_str (PyInt 10) < py_str (PyInt 2)
   \<and> unique_sources [PyInt 2, PyInt 10] = [''10'', ''2'']
   \<and> format_sources [PyInt 2, PyInt 10] = ''**Sources:** Pages 10, 2''"
proof -
  have i: "py_str (PyInt 10) < py_str (PyInt 2)" by code_simp
  have u: "unique_sources [PyInt 2, PyInt 10] = [''10'', ''2'']" by code_simp
  have "format_sources [PyInt 2, PyInt 10] = ''**Sources:** Pages 10, 2''"
    using format_sources_lexicographic [of "PyInt 10" "[PyInt 2, PyInt 10]" "PyInt 2"] i
    by (simp add: u)
  then show ?thesis using i u by simp
qed

text \<open>
  C9 as stated fails: the input \<open>[1, 10, 11, 12, 13, 2]\<close> contains pages 10 and 2, and
  the line shows the first five of the six sorted pages, "1, 10, 11, 12, 13 and 1 more":
  page 2 is not listed at all.
\<close>

theorem format_sources_truncated_counterexample:
  "PyInt 10 \<in> set [PyInt 1, PyInt 10, PyInt 11, PyInt 12, PyInt 13, PyInt 2]
   \<and> PyInt 2 \<in> set [PyInt 1, PyInt 10, PyInt 11, PyInt 12, PyInt 13, PyInt 2]
   \<and> py_str (PyInt 10) < py_str (PyInt 2)
   \<and> unique_sources [PyInt 1, PyInt 10, PyInt 11, PyInt 12, PyInt 13, PyInt 2]
       = [''1'', ''10'', ''11'', ''12'', ''13'', ''2'']
   \<and> ''2'' \<notin> set (take 5 (unique_sources [PyInt 1, PyInt 10, PyInt 11, PyInt 12, PyInt 13, PyInt 2]))
   \<and> format_sources [PyInt 1, PyInt 10, PyInt 11, PyInt 12, PyInt 13, PyInt 2]
       = ''**Sources:** Pages 1, 10, 11, 12, 13 and 1 more''"
proof -
  have i: "py_str (PyInt 10) < py_str (PyInt 2)" by code_simp
  have u: "unique_sources [PyInt 1, PyInt 10, PyInt 11, PyInt 12, PyInt 13, PyInt 2]
       = [''1'', ''10'', ''11'', ''12'', ''13'', ''2'']" by code_simp
  have f: "format_sources [PyInt 1, PyInt 10, PyInt 11, PyInt 12, PyInt 13, PyInt 2]
       = ''**Sources:** Pages 1, 10, 11, 12, 13 and 1 more''" by code_simp
  show ?thesis unfolding u using i f by simp
qed

text \<open>
  C10. Padding the question with leading and trailing whitespace does not change what
  \<open>strip\<close> returns, and so does not change the response: \<open>get_response\<close> calls the
  chain on the stripped question only, and any chain that agrees on that input gives the
  same response.
\<close>

theorem get_response_strip_invariant:
  assumes "\<forall>c \<in> set p1. is_space c" and "\<forall>c \<in> set p2. is_space c"
  shows "strip (p1 @ q @ p2) = strip q
    \<and> get_response qa_chain (p1 @ q @ p2) = get_response qa_chain q
    \<and> (\<forall>chain'. chain' (strip q) = qa_chain (strip q)
          \<longrightarrow> get_response chain' (p1 @ q @ p2) = get_response qa_chain q)"
  using strip_padding[OF assms, of q] by (simp add: get_response_def)

theorem get_response_strip_invariant_witness:
  "strip (''  '' @ ''Who was Abu Bakr?'' @ [CHR 0x09, CHR 0x0A]) = ''Who was Abu Bakr?''
   \<and> get_response (returning \<lparr>res_answer = Some ''ok'', res_context = None\<rparr>)
         (''  '' @ ''Who was Abu Bakr?'' @ [CHR 0x09, CHR 0x0A])
     = get_response (returning \<lparr>res_answer = Some ''ok'', res_context = None\<rparr>) ''Who was Abu Bakr?''"
proof -
  have s: "strip ''Who was Abu Bakr?'' = ''Who was Abu Bakr?''"
    by code_simp
  show ?thesis
    using get_response_strip_invariant [of "''  ''" "[CHR 0x09, CHR 0x0A]" "''Who was Abu Bakr?''"
        "returning \<lparr>res_answer = Some ''ok'', res_context = None\<rparr>"]
    by (simp add: s is_space_def)
qed




text \<open>
  C7. \<open>validate_environment\<close> reads the environment after \<open>load_dotenv\<close>. When
  \<open>OPENAI_API_KEY\<close> is not set there (or set to the empty string, which
  \<open>not os.getenv(var)\<close> treats alike), it raises a \<open>ValueError\<close> whose message names the
  variable; the first initialisation of the chatbot raises the same error, and a session
  that starts then is stopped without being marked initialised. When the variable is set
  to a non-empty value, validation raises nothing.
\<close>

theorem missing_credential_aborts_startup:
  "(load_dotenv w (environ s) ''OPENAI_API_KEY'' = None \<or> load_dotenv w (environ s) ''OPENAI_API_KEY'' = Some [] \<longrightarrow>
      fst (validate_environment w s) = Inl (ValueError ''Missing required environment variables: OPENAI_API_KEY. Please set them in your .env file or Streamlit secrets.'')
    \<and> (chatbot_cache s = None \<longrightarrow>
         fst (initialize_chatbot w s) = Inl (ValueError ''Missing required environment variables: OPENAI_API_KEY. Please set them in your .env file or Streamlit secrets.'')
       \<and> (\<not> chatbot_initialized sess \<longrightarrow>
            fst (start_session w sess s) = Stopped \<and> fst (snd (start_session w sess s)) = sess)))
   \<and> ((\<exists>v. load_dotenv w (environ s) ''OPENAI_API_KEY'' = Some v \<and> v \<noteq> []) \<longrightarrow>
        fst (validate_environment w s) = Inr ())"
proof (intro conjI impI)
  assume a: "load_dotenv w (environ s) ''OPENAI_API_KEY'' = None \<or> load_dotenv w (environ s) ''OPENAI_API_KEY'' = Some []"
  then have n: "not_getenv (load_dotenv w (environ s)) ''OPENAI_API_KEY''"
    by (simp add: not_getenv_iff)
  show v: "fst (validate_environment w s) = Inl (ValueError ''Missing required environment variables: OPENAI_API_KEY. Please set them in your .env file or Streamlit secrets.'')"
    unfolding validate_fst using n by simp
  assume c: "chatbot_cache s = None"
  show i: "fst (initialize_chatbot w s) = Inl (ValueError ''Missing required environment variables: OPENAI_API_KEY. Please set them in your .env file or Streamlit secrets.'')"
    unfolding init_fst[OF c] init_body_fst v by simp
  assume ns: "\<not> chatbot_initialized sess"
  show "fst (start_session w sess s) = Stopped" using start_session_stops[OF ns i] by simp
  show "fst (snd (start_session w sess s)) = sess" using start_session_stops[OF ns i] by simp
next
  assume "\<exists>v. load_dotenv w (environ s) ''OPENAI_API_KEY'' = Some v \<and> v \<noteq> []"
  then have "\<not> not_getenv (load_dotenv w (environ s)) ''OPENAI_API_KEY''"
    by (auto simp: not_getenv_iff)
  then show "fst (validate_environment w s) = Inr ()"
    unfolding validate_fst by simp
qed

theorem missing_credential_aborts_startup_witness:
  "fst (validate_environment world_ok state_nokey) = Inl (ValueError ''Missing required environment variables: OPENAI_API_KEY. Please set them in your .env file or Streamlit secrets.'')
   \<and> fst (initialize_chatbot world_ok state_nokey) = Inl (ValueError ''Missing required environment variables: OPENAI_API_KEY. Please set them in your .env file or Streamlit secrets.'')
   \<and> fst (start_session world_ok new_session state_nokey) = Stopped
   \<and> fst (snd (start_session world_ok new_session state_nokey)) = new_session
   \<and> fst (validate_environment world_ok state0) = Inr ()"
proof -
  have e1: "load_dotenv world_ok (environ state_nokey) ''OPENAI_API_KEY'' = None"
    by (simp add: world_ok_def state_nokey_def)
  have c1: "chatbot_cache state_nokey = None" by (simp add: state_nokey_def)
  have n1: "\<not> chatbot_initialized new_session" by (simp add: new_session_def)
  have e2: "load_dotenv world_ok (environ state0) ''OPENAI_API_KEY'' = Some ''sk-test''"
    by (simp add: world_ok_def state0_def)
  show ?thesis
    using missing_credential_aborts_startup [of world_ok state_nokey new_session]
      missing_credential_aborts_startup [of world_ok state0 new_session]
    by (simp add: e1 c1 n1 e2)
qed


text \<open>
  C8. After an initialisation request that returned a chain, every later request, in
  whatever world, returns that same chain and leaves the state as it is: the trace of
  library calls does not grow, so nothing is loaded, built or created again. The same
  holds for \<open>load_or_create_vectorstore\<close> and its path. The run below makes the first request
  in a world that works and the later ones also in a world where every library call fails.
\<close>

theorem initialization_idempotent:
  "(initialize_chatbot w s = (Inr c, s') \<longrightarrow>
      chatbot_cache s' = Some c
    \<and> (\<forall>w'. initialize_chatbot w' s' = (Inr c, s'))
    \<and> (\<forall>ws. initialize_requests ws s' = (replicate (length ws) (Inr c), s')))
   \<and> (load_or_create_vectorstore w p s = (Inr vs, t) \<longrightarrow>
      vectorstore_cache t p = Some vs
    \<and> (\<forall>w'. load_or_create_vectorstore w' p t = (Inr vs, t)))"
proof (intro conjI impI)
  assume run: "initialize_chatbot w s = (Inr c, s')"
  show stored: "chatbot_cache s' = Some c"
    using run unfolding initialize_chatbot_def
    by (rule cache_resource_stored[rotated]) simp
  have again: "initialize_chatbot w' s' = (Inr c, s')" for w'
    unfolding initialize_chatbot_def using stored by (rule cache_resource_hit)
  show "\<forall>w'. initialize_chatbot w' s' = (Inr c, s')" using again by simp
  have "initialize_requests ws s' = (replicate (length ws) (Inr c), s')" for ws
    by (induction ws) (simp_all add: again)
  then show "\<forall>ws. initialize_requests ws s' = (replicate (length ws) (Inr c), s')" by simp
next
  assume run: "load_or_create_vectorstore w p s = (Inr vs, t)"
  show stored: "vectorstore_cache t p = Some vs"
    using run unfolding load_or_create_vectorstore_def
    by (rule cache_resource_stored[rotated]) simp
  have "load_or_create_vectorstore w' p t = (Inr vs, t)" for w'
    unfolding load_or_create_vectorstore_def using stored by (rule cache_resource_hit)
  then show "\<forall>w'. load_or_create_vectorstore w' p t = (Inr vs, t)" by simp
qed

theorem initialization_idempotent_witness:
  "fst (initialize_chatbot world_ok state0) = Inr chain_ok
   \<and> initialize_chatbot world_down (snd (initialize_chatbot world_ok state0))
       = (Inr chain_ok, snd (initialize_chatbot world_ok state0))
   \<and> initialize_requests [world_down, world_ok, world_down] (snd (initialize_chatbot world_ok state0))
       = ([Inr chain_ok, Inr chain_ok, Inr chain_ok], snd (initialize_chatbot world_ok state0))"
proof -
  have run: "initialize_chatbot world_ok state0 = (Inr chain_ok, snd (initialize_chatbot world_ok state0))"
    using init_ok by (simp add: prod_eq_iff)
  have "(\<forall>w'. initialize_chatbot w' (snd (initialize_chatbot world_ok state0))
            = (Inr chain_ok, snd (initialize_chatbot world_ok state0)))
      \<and> (\<forall>ws. initialize_requests ws (snd (initialize_chatbot world_ok state0))
            = (replicate (length ws) (Inr chain_ok), snd (initialize_chatbot world_ok state0)))"
    using initialization_idempotent [of world_ok state0 chain_ok "snd (initialize_chatbot world_ok state0)"] run
    by blast
  then have a: "initialize_chatbot world_down (snd (initialize_chatbot world_ok state0))
            = (Inr chain_ok, snd (initialize_chatbot world_ok state0))"
    and b: "initialize_requests [world_down, world_ok, world_down] (snd (initialize_chatbot world_ok state0))
            = (replicate (length [world_down, world_ok, world_down]) (Inr chain_ok), snd (initialize_chatbot world_ok state0))"
    by blast+
  have r: "replicate (length [world_down, world_ok, world_down]) (Inr chain_ok :: exn + qa_chain_obj)
      = [Inr chain_ok, Inr chain_ok, Inr chain_ok]"
    by (simp add: numeral_3_eq_3)
  show ?thesis using init_ok a b unfolding r by (intro conjI)
qed

text \<open>
  C4. A chain made by \<open>create_qa_chain\<close> has a retriever configured for
  maximal-marginal-relevance search with \<open>k = 6\<close>, \<open>fetch_k = 12\<close> and
  \<open>lambda_mult = 0.7\<close> (the fraction 7/10 here), over the store it was given. For every
  query, that is for every relevance and similarity, the retrieval modelled from the
  specification returns at most 6 chunks, no position of the index twice, and every
  position within the index; so the result has no duplicate chunk whenever the index has
  none.
\<close>

theorem retriever_mmr_bounded:
  "create_qa_chain w vs = Inr c \<longrightarrow>
     search_type (retriever c) = ''mmr'' \<and> k (retriever c) = 6 \<and> fetch_k (retriever c) = 12
     \<and> lambda_mult (retriever c) = 7 / 10
     \<and> chain_store c = vs
     \<and> length (retrieval_result (retriever c) relevance similarity vs) \<le> 6
     \<and> distinct (retrieve (retriever c) relevance similarity vs)
     \<and> (\<forall>i \<in> set (retrieve (retriever c) relevance similarity vs). i < length vs)
     \<and> (distinct vs \<longrightarrow> distinct (retrieval_result (retriever c) relevance similarity vs))"
proof
  assume a: "create_qa_chain w vs = Inr c"
  let ?cfg = "retriever c"
  let ?r = "retrieve ?cfg relevance similarity vs"
  have cfg: "search_type ?cfg = ''mmr'' \<and> k ?cfg = 6 \<and> fetch_k ?cfg = 12 \<and> lambda_mult ?cfg = 7 / 10 \<and> chain_store c = vs"
    using a by (cases "secrets w ''OPENAI_API_KEY''") (auto simp: create_qa_chain_def)
  have len: "length ?r \<le> 6"
    using mmr_select_length[of "k ?cfg" _ _ "[]"] cfg by (simp add: retrieve_def)
  have dist: "distinct ?r"
    unfolding retrieve_def by (rule mmr_select_distinct) (simp_all add: candidate_pool_distinct)
  have "set ?r \<subseteq> set (candidate_pool ?cfg relevance (length vs))"
    unfolding retrieve_def using mmr_select_set[of _ _ _ "[]"] by simp
  then have bound: "\<forall>i \<in> set ?r. i < length vs"
    using candidate_pool_set[of ?cfg relevance "length vs"] by auto
  have dv: "distinct vs \<longrightarrow> distinct (retrieval_result ?cfg relevance similarity vs)"
  proof
    assume "distinct vs"
    then have "inj_on (\<lambda>i. vs ! i) (set ?r)"
      using bound by (intro inj_on_nth) auto
    then show "distinct (retrieval_result ?cfg relevance similarity vs)"
      using dist by (simp add: retrieval_result_def distinct_map)
  qed
  show "search_type ?cfg = ''mmr'' \<and> k ?cfg = 6 \<and> fetch_k ?cfg = 12
     \<and> lambda_mult ?cfg = 7 / 10
     \<and> chain_store c = vs
     \<and> length (retrieval_result ?cfg relevance similarity vs) \<le> 6
     \<and> distinct ?r
     \<and> (\<forall>i \<in> set ?r. i < length vs)
     \<and> (distinct vs \<longrightarrow> distinct (retrieval_result ?cfg relevance similarity vs))"
    using cfg len dist bound dv by (simp add: retrieval_result_def)
qed


theorem retriever_mmr_bounded_witness:
  "create_qa_chain world_ok index_ex = Inr (chain_ok\<lparr>chain_store := index_ex\<rparr>)
   \<and> distinct index_ex
   \<and> retrieve (retriever (chain_ok\<lparr>chain_store := index_ex\<rparr>)) relevance_ex similarity_ex index_ex = [1, 0, 2]
   \<and> length (retrieval_result (retriever (chain_ok\<lparr>chain_store := index_ex\<rparr>)) relevance_ex similarity_ex index_ex) \<le> 6
   \<and> distinct (retrieval_result (retriever (chain_ok\<lparr>chain_store := index_ex\<rparr>)) relevance_ex similarity_ex index_ex)"
proof -
  have c: "create_qa_chain world_ok index_ex = Inr (chain_ok\<lparr>chain_store := index_ex\<rparr>)"
    by (simp add: create_qa_chain_def world_ok_def chain_ok_def)
  have d: "distinct index_ex"
    by (simp add: index_ex_def page_doc_def)
  have r: "retriever (chain_ok\<lparr>chain_store := index_ex\<rparr>)
      = \<lparr>search_type = ''mmr'', k = 6, fetch_k = 12, lambda_mult = 7 / 10\<rparr>"
    by (simp add: chain_ok_def)
  have e: "retrieve (retriever (chain_ok\<lparr>chain_store := index_ex\<rparr>)) relevance_ex similarity_ex index_ex = [1, 0, 2]"
    unfolding r by code_simp
  show ?thesis
    using retriever_mmr_bounded [of world_ok index_ex "chain_ok\<lparr>chain_store := index_ex\<rparr>" relevance_ex similarity_ex]
      c d e by simp
qed




end
